theory Spec2Isabelle
  imports Main
begin

section \<open>Python values used by \<open>p2000/rtlsdr.py\<close>\<close>

text \<open>
  A Python \<open>str\<close> is a sequence of Unicode code points, a \<open>bytes\<close> object a sequence of
  bytes. Code points are natural numbers; a byte is a \<open>char\<close> (eight bits), so that a bytes
  literal \<open>b"abc"\<close> is written \<open>''abc''\<close>. \<open>str_of\<close> reads an ASCII literal as text.
\<close>

type_synonym str = "nat list"
type_synonym bytes = "char list"

definition str_of :: "string \<Rightarrow> str" where
  "str_of s = map of_char s"

text \<open>The exceptions that the modelled code and the library calls it makes can raise.\<close>

datatype error =
    IndexError
  | ConnectionError
  | UnicodeDecodeError
  | UnicodeEncodeError
  | AttributeError
  | TypeError
  | OSError
  | UserError nat

subsection \<open>Whitespace, \<open>split\<close>, \<open>rstrip\<close>, \<open>strip\<close>, \<open>join\<close>\<close>

text \<open>
  \<open>str.isspace\<close>, \<open>str.split()\<close> and \<open>str.rstrip()\<close> share one notion of whitespace: the code
  points of bidirectional class WS, B or S and those of category Zs.
\<close>

definition isspace :: "nat \<Rightarrow> bool" where
  "isspace c \<longleftrightarrow>
     (0x09 \<le> c \<and> c \<le> 0x0D) \<or> (0x1C \<le> c \<and> c \<le> 0x20) \<or> c = 0x85 \<or> c = 0xA0 \<or>
     c = 0x1680 \<or> (0x2000 \<le> c \<and> c \<le> 0x200A) \<or> c = 0x2028 \<or> c = 0x2029 \<or>
     c = 0x202F \<or> c = 0x205F \<or> c = 0x3000"

text \<open>
  \<open>line.split()\<close> without arguments: one left-to-right scan; \<open>cur\<close> is the word being read.
  Runs of whitespace separate words and no empty word is produced.
\<close>

fun split_from :: "('a \<Rightarrow> bool) \<Rightarrow> 'a list \<Rightarrow> 'a list \<Rightarrow> 'a list list" where
  "split_from sp cur [] = (if cur = [] then [] else [cur])"
| "split_from sp cur (c # cs) =
     (if sp c then (if cur = [] then split_from sp [] cs else cur # split_from sp [] cs)
      else split_from sp (cur @ [c]) cs)"

definition str_split :: "str \<Rightarrow> str list" where
  "str_split s = split_from isspace [] s"

text \<open>\<open>bytes.split()\<close> works the same way on the six ASCII whitespace bytes.\<close>

definition bytes_isspace :: "char \<Rightarrow> bool" where
  "bytes_isspace b \<longleftrightarrow> (0x09 \<le> (of_char b :: nat) \<and> (of_char b :: nat) \<le> 0x0D) \<or> b = CHR '' ''"

definition bytes_split :: "bytes \<Rightarrow> bytes list" where
  "bytes_split s = split_from bytes_isspace [] s"

text \<open>\<open>s.rstrip()\<close> removes all trailing whitespace; \<open>s.strip(chars)\<close> removes, at both ends,
  every character that occurs in \<open>chars\<close>.\<close>

definition str_rstrip :: "str \<Rightarrow> str" where
  "str_rstrip s = rev (dropWhile isspace (rev s))"

definition str_strip :: "str \<Rightarrow> str \<Rightarrow> str" where
  "str_strip chars s =
     rev (dropWhile (\<lambda>c. c \<in> set chars) (rev (dropWhile (\<lambda>c. c \<in> set chars) s)))"

fun str_join :: "str \<Rightarrow> str list \<Rightarrow> str" where
  "str_join sep [] = []"
| "str_join sep [w] = w"
| "str_join sep (w # v # ws) = w @ sep @ str_join sep (v # ws)"

subsection \<open>Indexing and slicing\<close>

text \<open>\<open>xs[i]\<close> raises \<open>IndexError\<close> out of range; a slice \<open>xs[i:j]\<close> never raises, it clamps
  both bounds to the list. Negative positions count from the end.\<close>

definition list_index :: "'a list \<Rightarrow> int \<Rightarrow> error + 'a" where
  "list_index xs i =
     (if 0 \<le> i \<and> i < int (length xs) then Inr (xs ! nat i)
      else if i < 0 \<and> - int (length xs) \<le> i then Inr (xs ! nat (int (length xs) + i))
      else Inl IndexError)"

definition slice_bound :: "nat \<Rightarrow> int \<Rightarrow> nat" where
  "slice_bound n i = (if i < 0 then nat (max 0 (int n + i)) else min (nat i) n)"

definition list_slice :: "'a list \<Rightarrow> int \<Rightarrow> int \<Rightarrow> 'a list" where
  "list_slice xs i j =
     (let lo = slice_bound (length xs) i; hi = slice_bound (length xs) j
      in take (hi - lo) (drop lo xs))"

text \<open>\<open>kwargs.get(key, default)\<close> on the keyword dictionary. The default is an argument of the
  call, so Python evaluates it before the lookup.\<close>

definition kwargs_get :: "(string \<rightharpoonup> 'v) \<Rightarrow> string \<Rightarrow> 'v \<Rightarrow> 'v" where
  "kwargs_get kwargs key dflt = (case kwargs key of None \<Rightarrow> dflt | Some v \<Rightarrow> v)"

section \<open>Class \<open>Line\<close>\<close>

record Line =
  line :: str
  timestamp :: str
  monitorcode :: str
  message :: str

text \<open>
  \<open>Line.__init__(line, **kwargs)\<close>. The three defaults are computed in source order, each before
  its \<open>kwargs.get\<close>; \<open>words[5]\<close> is the only access that can raise.
\<close>

definition Line_init :: "str \<Rightarrow> (string \<rightharpoonup> str) \<Rightarrow> error + Line" where
  "Line_init ln kwargs =
     (let words = str_split ln;
          ts = kwargs_get kwargs ''timestamp'' (str_join (str_of '' '') (list_slice words 1 2))
      in case list_index words 5 of
           Inl e \<Rightarrow> Inl e
         | Inr w5 \<Rightarrow>
             (let mc = kwargs_get kwargs ''monitorcode'' (str_strip (str_of ''[]'') w5);
                  msg = kwargs_get kwargs ''message''
                          (str_join (str_of '' '') (list_slice words 6 (- 1)))
              in Inr \<lparr>line = ln, timestamp = ts, monitorcode = mc, message = msg\<rparr>))"

text \<open>
  \<open>Line(line)\<close> when \<open>line\<close> is a \<open>bytes\<close> object: \<open>" ".join(words[1:2])\<close> raises \<open>TypeError\<close> as
  soon as the slice holds a bytes item; with fewer than two words the slice is empty and
  \<open>words[5]\<close> raises.
\<close>

definition Line_init_bytes :: "bytes \<Rightarrow> error + Line" where
  "Line_init_bytes ln =
     (let words = bytes_split ln
      in if list_slice words 1 2 \<noteq> [] then Inl TypeError
         else case list_index words 5 of Inl e \<Rightarrow> Inl e | Inr w5 \<Rightarrow> Inl TypeError)"

section \<open>Codecs\<close>

text \<open>
  \<open>self.encoding\<close> names a codec of the Python library; \<open>bytes.decode\<close> resolves the name at
  every call. The reader's field holds the codec that the name denotes. \<open>utf8\<close> is the
  default, \<open>"utf-8"\<close>, with the strict error handler: encoding rejects surrogates, decoding
  rejects truncated, overlong and out-of-range sequences.
\<close>

record codec =
  encode :: "str \<Rightarrow> error + bytes"
  decode :: "bytes \<Rightarrow> error + str"

definition continuation :: "nat \<Rightarrow> char" where
  "continuation n = char_of (0x80 + n mod 64)"

definition utf8_encode_cp :: "nat \<Rightarrow> error + bytes" where
  "utf8_encode_cp c =
     (if c < 0x80 then Inr [char_of c]
      else if c < 0x800 then Inr [char_of (0xC0 + c div 64), continuation c]
      else if c < 0x10000 then
        (if 0xD800 \<le> c \<and> c \<le> 0xDFFF then Inl UnicodeEncodeError
         else Inr [char_of (0xE0 + c div 4096), continuation (c div 64), continuation c])
      else if c < 0x110000 then
        Inr [char_of (0xF0 + c div 262144), continuation (c div 4096),
             continuation (c div 64), continuation c]
      else Inl UnicodeEncodeError)"

fun utf8_encode :: "str \<Rightarrow> error + bytes" where
  "utf8_encode [] = Inr []"
| "utf8_encode (c # cs) =
     (case utf8_encode_cp c of
        Inl e \<Rightarrow> Inl e
      | Inr bs \<Rightarrow> (case utf8_encode cs of Inl e \<Rightarrow> Inl e | Inr r \<Rightarrow> Inr (bs @ r)))"

definition is_cont :: "char \<Rightarrow> bool" where
  "is_cont b \<longleftrightarrow> 0x80 \<le> (of_char b :: nat) \<and> (of_char b :: nat) \<le> 0xBF"

definition cont_bits :: "char \<Rightarrow> nat" where
  "cont_bits b = of_char b mod 64"

definition push :: "nat \<Rightarrow> error + str \<Rightarrow> error + str" where
  "push c r = (case r of Inl e \<Rightarrow> Inl e | Inr cs \<Rightarrow> Inr (c # cs))"

fun utf8_decode :: "bytes \<Rightarrow> error + str" where
  "utf8_decode [] = Inr []"
| "utf8_decode (b # bs) =
     (if (of_char b :: nat) < 0x80 then push (of_char b) (utf8_decode bs)
      else if 0xC2 \<le> (of_char b :: nat) \<and> (of_char b :: nat) \<le> 0xDF then
        (case bs of
           b1 # r \<Rightarrow>
             if is_cont b1 then push ((of_char b - 0xC0) * 64 + cont_bits b1) (utf8_decode r)
             else Inl UnicodeDecodeError
         | _ \<Rightarrow> Inl UnicodeDecodeError)
      else if 0xE0 \<le> (of_char b :: nat) \<and> (of_char b :: nat) \<le> 0xEF then
        (case bs of
           b1 # b2 # r \<Rightarrow>
             if is_cont b1 \<and> is_cont b2 \<and>
                0x800 \<le> (of_char b - 0xE0) * 4096 + cont_bits b1 * 64 + cont_bits b2 \<and>
                \<not> (0xD800 \<le> (of_char b - 0xE0) * 4096 + cont_bits b1 * 64 + cont_bits b2 \<and>
                   (of_char b - 0xE0) * 4096 + cont_bits b1 * 64 + cont_bits b2 \<le> 0xDFFF)
             then push ((of_char b - 0xE0) * 4096 + cont_bits b1 * 64 + cont_bits b2)
                    (utf8_decode r)
             else Inl UnicodeDecodeError
         | _ \<Rightarrow> Inl UnicodeDecodeError)
      else if 0xF0 \<le> (of_char b :: nat) \<and> (of_char b :: nat) \<le> 0xF4 then
        (case bs of
           b1 # b2 # b3 # r \<Rightarrow>
             if is_cont b1 \<and> is_cont b2 \<and> is_cont b3 \<and>
                0x10000 \<le> (of_char b - 0xF0) * 262144 + cont_bits b1 * 4096 +
                             cont_bits b2 * 64 + cont_bits b3 \<and>
                (of_char b - 0xF0) * 262144 + cont_bits b1 * 4096 +
                  cont_bits b2 * 64 + cont_bits b3 < 0x110000
             then push ((of_char b - 0xF0) * 262144 + cont_bits b1 * 4096 +
                        cont_bits b2 * 64 + cont_bits b3) (utf8_decode r)
             else Inl UnicodeDecodeError
         | _ \<Rightarrow> Inl UnicodeDecodeError)
      else Inl UnicodeDecodeError)"

definition utf8 :: codec where
  "utf8 = \<lparr>encode = utf8_encode, decode = utf8_decode\<rparr>"

section \<open>Class \<open>Connection\<close> and the operating system\<close>

text \<open>
  A \<open>Popen\<close> object is a started process: its arguments, its pid, the pipe it reads and the
  pipe it writes (\<open>stdout=PIPE\<close>). The operating system is the history of what the program
  asked of it: the processes started and the commands run with \<open>call\<close>.
\<close>

datatype pipe = Pipe nat

record process =
  argv :: "string list"
  pid :: nat
  stdin :: "pipe option"
  out :: pipe

record os_state =
  spawned :: "process list"
  called :: "string list list"

text \<open>
  \<open>Popen(argv, stdin=..., stdout=PIPE)\<close>. Whether the program can be started is decided outside
  the program: \<open>outcome\<close> is \<open>Some e\<close> when the spawn raises \<open>e\<close>.
\<close>

definition Popen :: "error option \<Rightarrow> string list \<Rightarrow> pipe option \<Rightarrow> os_state
    \<Rightarrow> error + (process \<times> os_state)" where
  "Popen outcome cmd inp s =
     (case outcome of
        Some e \<Rightarrow> Inl e
      | None \<Rightarrow>
          (let p = \<lparr>argv = cmd, pid = length (spawned s), stdin = inp,
                     out = Pipe (length (spawned s))\<rparr>
           in Inr (p, s\<lparr>spawned := spawned s @ [p]\<rparr>)))"

text \<open>
  \<open>call(argv)\<close> starts the program through \<open>Popen\<close> and waits for it; \<open>kill\<close> discards the
  exit status it returns. As for \<open>Popen\<close>, \<open>outcome\<close> is \<open>Some e\<close> when starting the program
  raises \<open>e\<close>, as it does when there is no \<open>killall\<close> on the system; nothing has run then.
\<close>

definition call :: "error option \<Rightarrow> string list \<Rightarrow> os_state \<Rightarrow> error option \<times> os_state" where
  "call outcome cmd s =
     (case outcome of
        Some e \<Rightarrow> (Some e, s)
      | None \<Rightarrow> (None, s\<lparr>called := called s @ [cmd]\<rparr>))"

record Connection =
  rtlfm_process :: "process option"
  multi_process :: "process option"
  stdout :: "pipe option"

definition COMMAND_RTLFM :: "string list" where
  "COMMAND_RTLFM = [''rtl_fm'', ''-f'', ''169.65M'', ''-M'', ''fm'', ''-s'', ''22050'',
                    ''-p'', ''83'', ''-g'', ''30'']"

definition COMMAND_MULTI :: "string list" where
  "COMMAND_MULTI = [''multimon-ng'', ''-q'', ''-a'', ''FLEX'', ''-t'', ''raw'', ''/dev/stdin'']"

definition COMMAND_KILL :: "string list" where
  "COMMAND_KILL = [''killall'', ''-9'', ''rtl_fm'']"

definition Connection_init :: Connection where
  "Connection_init = \<lparr>rtlfm_process = None, multi_process = None, stdout = None\<rparr>"

text \<open>
  \<open>Connection.kill\<close> runs \<open>COMMAND_KILL\<close> and assigns nothing to \<open>self\<close>; \<open>rk\<close> is the outcome of
  starting the command. It raises what \<open>call\<close> raises.
\<close>

definition Connection_kill :: "error option \<Rightarrow> Connection \<Rightarrow> os_state
    \<Rightarrow> error option \<times> Connection \<times> os_state" where
  "Connection_kill rk c s = (case call rk COMMAND_KILL s of (r, s') \<Rightarrow> (r, c, s'))"

text \<open>
  \<open>Connection.open(**kwargs)\<close>; \<open>rk\<close> is the outcome of starting the kill command, \<open>r1\<close> and \<open>r2\<close>
  are the outcomes of the two spawns. The result is the exception raised, if any, with the
  object and the system as they are at that point.
\<close>

definition Connection_open :: "error option \<Rightarrow> error option \<Rightarrow> error option
    \<Rightarrow> (string \<rightharpoonup> bool) \<Rightarrow> Connection \<Rightarrow> os_state
    \<Rightarrow> error option \<times> Connection \<times> os_state" where
  "Connection_open rk r1 r2 kwargs c s =
     (case (if kwargs_get kwargs ''kill'' False then Connection_kill rk c s else (None, c, s)) of
        (Some e, c0, s0) \<Rightarrow> (Some e, c0, s0)
      | (None, c0, s0) \<Rightarrow>
          (case Popen r1 COMMAND_RTLFM None s0 of
             Inl e \<Rightarrow> (Some e, c0, s0)
           | Inr (p1, s1) \<Rightarrow>
               (case Popen r2 COMMAND_MULTI (Some (out p1)) s1 of
                  Inl e \<Rightarrow> (Some e, c0\<lparr>rtlfm_process := Some p1\<rparr>, s1)
                | Inr (p2, s2) \<Rightarrow>
                    (None,
                     c0\<lparr>rtlfm_process := Some p1, multi_process := Some p2,
                        stdout := Some (out p2)\<rparr>,
                     s2))))"

text \<open>A history of calls on one \<open>Connection\<close> object, from its construction on, each with the
  outcomes of the programs it starts.\<close>

datatype conn_op =
    Open "error option" "error option" "error option" "string \<rightharpoonup> bool"
  | Kill "error option"

fun conn_step :: "conn_op \<Rightarrow> Connection \<times> os_state \<Rightarrow> Connection \<times> os_state" where
  "conn_step (Open rk r1 r2 kwargs) (c, s) = snd (Connection_open rk r1 r2 kwargs c s)"
| "conn_step (Kill rk) (c, s) = snd (Connection_kill rk c s)"

definition conn_run :: "conn_op list \<Rightarrow> os_state \<Rightarrow> Connection \<times> os_state" where
  "conn_run ops s = foldl (\<lambda>st op. conn_step op st) (Connection_init, s) ops"

section \<open>Class \<open>AbstractReader\<close>\<close>

type_synonym addr = nat

record AbstractReader =
  blacklist_messages :: "str list"
  blacklist_monitorcodes :: "str list"
  encoding :: codec
  connection :: "addr option"

text \<open>
  \<open>AbstractReader.__init__(**kwargs)\<close>; the two blacklists are what \<open>utils.load_config()\<close>
  returns under \<open>["rtlsdr"]["blacklist"]\<close>.
\<close>

definition AbstractReader_init :: "str list \<Rightarrow> str list \<Rightarrow> (string \<rightharpoonup> codec) \<Rightarrow> AbstractReader" where
  "AbstractReader_init msgs codes kwargs =
     \<lparr>blacklist_messages = msgs, blacklist_monitorcodes = codes,
      encoding = kwargs_get kwargs ''encoding'' utf8, connection = None\<rparr>"

text \<open>The value passed as \<open>line\<close> to the reader's methods: a \<open>Line\<close> object, the bytes read
  from the pipe, or text.\<close>

datatype pyline = LineObj Line | Bytes bytes | Str str

definition decode_line :: "AbstractReader \<Rightarrow> bytes \<Rightarrow> bool \<Rightarrow> error + str" where
  "decode_line r ln strip =
     (case decode (encoding r) ln of
        Inl e \<Rightarrow> Inl e
      | Inr decoded \<Rightarrow> Inr (if strip then str_rstrip decoded else decoded))"

text \<open>\<open>create_line\<close>: only a bytes object has \<open>decode\<close>, and only text has a \<open>split\<close> whose
  words \<open>" ".join\<close> accepts.\<close>

definition create_line :: "AbstractReader \<Rightarrow> pyline \<Rightarrow> (string \<rightharpoonup> bool) \<Rightarrow> error + Line" where
  "create_line r ln kwargs =
     (let strip = kwargs_get kwargs ''strip'' True;
          dec = kwargs_get kwargs ''decode'' True
      in if dec then
           (case ln of
              Bytes b \<Rightarrow>
                (case decode_line r b strip of Inl e \<Rightarrow> Inl e | Inr s \<Rightarrow> Line_init s Map.empty)
            | _ \<Rightarrow> Inl AttributeError)
         else
           (case ln of
              Str s \<Rightarrow> Line_init s Map.empty
            | Bytes b \<Rightarrow> Line_init_bytes b
            | LineObj l \<Rightarrow> Inl AttributeError))"

definition is_monitorcode_blacklisted :: "AbstractReader \<Rightarrow> pyline \<Rightarrow> error + bool" where
  "is_monitorcode_blacklisted r ln =
     (case ln of
        LineObj l \<Rightarrow> Inr (monitorcode l \<in> set (blacklist_monitorcodes r))
      | _ \<Rightarrow>
          (case create_line r ln Map.empty of
             Inl e \<Rightarrow> Inl e
           | Inr l \<Rightarrow> Inr (monitorcode l \<in> set (blacklist_monitorcodes r))))"

definition is_message_blacklisted :: "AbstractReader \<Rightarrow> pyline \<Rightarrow> error + bool" where
  "is_message_blacklisted r ln =
     (case ln of
        LineObj l \<Rightarrow> Inr (message l \<in> set (blacklist_messages r))
      | _ \<Rightarrow>
          (case create_line r ln Map.empty of
             Inl e \<Rightarrow> Inl e
           | Inr l \<Rightarrow> Inr (message l \<in> set (blacklist_messages r))))"

text \<open>\<open>a or b\<close> evaluates \<open>b\<close> only when \<open>a\<close> is false.\<close>

definition is_line_blacklisted :: "AbstractReader \<Rightarrow> pyline \<Rightarrow> error + bool" where
  "is_line_blacklisted r ln =
     (case is_monitorcode_blacklisted r ln of
        Inl e \<Rightarrow> Inl e
      | Inr True \<Rightarrow> Inr True
      | Inr False \<Rightarrow> is_message_blacklisted r ln)"

section \<open>The reader and its connection\<close>

text \<open>
  \<open>Connection\<close> objects are shared between the caller and the reader, so they live in a store
  and the reader holds an address. The state is the reader, the store and the system.
\<close>

record world =
  reader :: AbstractReader
  heap :: "addr \<Rightarrow> Connection"
  os :: os_state

text \<open>
  What the pipe delivers to \<open>for line in self.connection.stdout\<close>: the \<open>n\<close>-th read yields a
  line, the end of the stream, or a stream error. The environment of one \<open>attach\<close> gives the
  outcomes of the two spawns and of starting the kill command, and the contents of every pipe.
\<close>

datatype item = Data bytes | EOF | Fault error

record env =
  rtlfm_spawn :: "error option"
  multi_spawn :: "error option"
  kill_call :: "error option"
  stream_of :: "pipe \<Rightarrow> nat \<Rightarrow> item"

text \<open>The user's \<open>act(line)\<close>: it may change the state in any way, and it returns the
  exception it raises, if any.\<close>

type_synonym act = "bytes \<Rightarrow> world \<Rightarrow> error option \<times> world"

text \<open>
  \<open>detach\<close>: \<open>self.connection.kill()\<close> comes before \<open>self.connection = None\<close>, so when \<open>kill\<close>
  raises, the exception leaves \<open>detach\<close> with the reference still set.
\<close>

definition detach :: "error option \<Rightarrow> world \<Rightarrow> error option \<times> world" where
  "detach rk w =
     (case connection (reader w) of
        None \<Rightarrow> (None, w)
      | Some a \<Rightarrow>
          (case Connection_kill rk (heap w a) (os w) of
             (Some e, c, s) \<Rightarrow> (Some e, w\<lparr>heap := (heap w)(a := c), os := s\<rparr>)
           | (None, c, s) \<Rightarrow>
               (None,
                w\<lparr>heap := (heap w)(a := c), os := s,
                  reader := (reader w)\<lparr>connection := None\<rparr>\<rparr>)))"

text \<open>
  The loop of \<open>__setup_connection__\<close>, from the \<open>n\<close>-th read on. On a stream that never ends
  the loop does not return: the value is \<open>None\<close>.
\<close>

partial_function (option) read_loop :: "act \<Rightarrow> (nat \<Rightarrow> item) \<Rightarrow> nat \<Rightarrow> world
    \<Rightarrow> (error option \<times> world) option" where
  "read_loop act_fn strm n w =
     (case strm n of
        EOF \<Rightarrow> Some (None, w)
      | Fault e \<Rightarrow> Some (Some e, w)
      | Data ln \<Rightarrow>
          (case act_fn ln w of
             (Some e, w') \<Rightarrow> Some (Some e, w')
           | (None, w') \<Rightarrow> read_loop act_fn strm (Suc n) w'))"

text \<open>The \<open>try\<close> block of \<open>__setup_connection__\<close>.\<close>

definition try_block :: "act \<Rightarrow> env \<Rightarrow> addr \<Rightarrow> world \<Rightarrow> (error option \<times> world) option" where
  "try_block act_fn e a w =
     (let w1 = w\<lparr>reader := (reader w)\<lparr>connection := Some a\<rparr>\<rparr>
      in case Connection_open (kill_call e) (rtlfm_spawn e) (multi_spawn e) Map.empty
                (heap w1 a) (os w1) of
           (r, c, s) \<Rightarrow>
             (let w2 = w1\<lparr>heap := (heap w1)(a := c), os := s\<rparr>
              in case r of
                   Some x \<Rightarrow> Some (Some x, w2)
                 | None \<Rightarrow>
                     (case connection (reader w2) of
                        None \<Rightarrow> Some (Some AttributeError, w2)
                      | Some a' \<Rightarrow>
                          (case stdout (heap w2 a') of
                             None \<Rightarrow> Some (Some TypeError, w2)
                           | Some p \<Rightarrow> read_loop act_fn (stream_of e p) 0 w2))))"

text \<open>
  \<open>__setup_connection__\<close>: \<open>finally\<close> runs \<open>detach\<close> on every exit of the \<open>try\<close> block. When
  \<open>detach\<close> returns, the exception of the block, if any, goes on to the caller; when \<open>detach\<close>
  raises, its exception replaces the one of the block.
\<close>

definition setup_connection :: "act \<Rightarrow> env \<Rightarrow> addr \<Rightarrow> world \<Rightarrow> (error option \<times> world) option" where
  "setup_connection act_fn e a w =
     (case try_block act_fn e a w of
        None \<Rightarrow> None
      | Some (r, w') \<Rightarrow>
          (case detach (kill_call e) w' of
             (Some x, w'') \<Rightarrow> Some (Some x, w'')
           | (None, w'') \<Rightarrow> Some (r, w'')))"

definition attach :: "act \<Rightarrow> env \<Rightarrow> addr \<Rightarrow> world \<Rightarrow> (error option \<times> world) option" where
  "attach act_fn e a w =
     (case connection (reader w) of
        None \<Rightarrow> setup_connection act_fn e a w
      | Some cur \<Rightarrow>
          if stdout (heap w cur) = None then setup_connection act_fn e a w
          else Some (Some ConnectionError, w))"

text \<open>The \<open>act\<close> of \<open>examples/reader.py\<close>, without its printing: it parses the line and tests
  the blacklist, so it raises whatever those raise.\<close>

definition MyReader_act :: act where
  "MyReader_act raw w =
     (case create_line (reader w) (Bytes raw) Map.empty of
        Inl e \<Rightarrow> (Some e, w)
      | Inr l \<Rightarrow>
          (case is_line_blacklisted (reader w) (LineObj l) of
             Inl e \<Rightarrow> (Some e, w)
           | Inr b \<Rightarrow> (None, w)))"

section \<open>Example values\<close>

text \<open>The line of the end-to-end example, as the pipe delivers it.\<close>

definition example_raw :: bytes where
  "example_raw = ''2024-01-01 12:00:00 X Y Z [A12] Hello World NNNN'' @ [CHR 0x0A]"

text \<open>A system on which nothing has run yet; a fresh reader with the default encoding and
  empty blacklists; and the state in which that reader is reading from connection \<open>0\<close>, as it
  is inside the loop of \<open>__setup_connection__\<close>.\<close>

definition os_init :: os_state where
  "os_init = \<lparr>spawned = [], called = []\<rparr>"

definition world_init :: world where
  "world_init = \<lparr>reader = AbstractReader_init [] [] Map.empty,
                 heap = (\<lambda>a. Connection_init), os = os_init\<rparr>"

definition world_reading :: world where
  "world_reading =
     (case Connection_open None None None Map.empty Connection_init os_init of
        (r, c, s) \<Rightarrow>
          \<lparr>reader = (AbstractReader_init [] [] Map.empty)\<lparr>connection := Some 0\<rparr>,
           heap = (\<lambda>a. Connection_init)(0 := c), os = s\<rparr>)"

text \<open>The loop on a finite run of lines: \<open>act\<close> on each line in turn, up to the first
  exception.\<close>

fun feed :: "act \<Rightarrow> bytes list \<Rightarrow> world \<Rightarrow> error option \<times> world" where
  "feed act_fn [] w = (None, w)"
| "feed act_fn (ln # lns) w =
     (case act_fn ln w of
        (Some e, w') \<Rightarrow> (Some e, w')
      | (None, w') \<Rightarrow> feed act_fn lns w')"

text \<open>An environment in which every program starts and every pipe delivers the line of the
  example, then a line of three words, then the end of the stream; and the same environment
  on a system where \<open>killall\<close> cannot be started.\<close>

definition example_env :: env where
  "example_env =
     \<lparr>rtlfm_spawn = None, multi_spawn = None, kill_call = None,
      stream_of = (\<lambda>p n. if n = 0 then Data example_raw
                          else if n = 1 then Data ''FLEX: no message''
                          else EOF)\<rparr>"

definition no_killall_env :: env where
  "no_killall_env = example_env\<lparr>kill_call := Some OSError\<rparr>"

text \<open>The specification's wording for what \<open>decode_line\<close> returns with \<open>strip=True\<close>: the text
  minus its trailing newline.\<close>

definition without_trailing_newline :: "str \<Rightarrow> str" where
  "without_trailing_newline s = (if s \<noteq> [] \<and> last s = 0x0A then butlast s else s)"

section \<open>Strings, indices and slices\<close>

text \<open>Every word that \<open>split\<close> returns is non-empty and free of whitespace.\<close>

lemma split_from_tokens:
  "\<forall>c\<in>set cur. \<not> sp c \<Longrightarrow> w \<in> set (split_from sp cur s) \<Longrightarrow>
   w \<noteq> [] \<and> (\<forall>c\<in>set w. \<not> sp c)"
proof (induction s arbitrary: cur)
  case Nil
  then show ?case by (cases "cur = []") simp_all
next
  case (Cons c cs)
  show ?case
  proof (cases "sp c")
    case True
    note sp = this
    show ?thesis
    proof (cases "cur = []")
      case True
      then have "w \<in> set (split_from sp [] cs)" using Cons.prems(2) sp by simp
      then show ?thesis using Cons.IH[of "[]"] by simp
    next
      case False
      then have "w = cur \<or> w \<in> set (split_from sp [] cs)" using Cons.prems(2) sp by simp
      then show ?thesis
      proof
        assume "w = cur"
        then show ?thesis using False Cons.prems(1) by simp
      next
        assume "w \<in> set (split_from sp [] cs)"
        then show ?thesis using Cons.IH[of "[]"] by simp
      qed
    qed
  next
    case False
    then have "w \<in> set (split_from sp (cur @ [c]) cs)" using Cons.prems(2) by simp
    moreover have "\<forall>x\<in>set (cur @ [c]). \<not> sp x" using False Cons.prems(1) by simp
    ultimately show ?thesis using Cons.IH[of "cur @ [c]"] by blast
  qed
qed

lemma str_split_tokens:
  "w \<in> set (str_split s) \<Longrightarrow> w \<noteq> [] \<and> (\<forall>c\<in>set w. \<not> isspace c)"
  unfolding str_split_def by (rule split_from_tokens[where cur = "[]"]) simp_all

text \<open>\<open>strip\<close> removes a prefix and a suffix made of the given characters, and what is left
  neither starts nor ends with one of them.\<close>

lemma str_strip_decomp:
  "\<exists>p q. s = p @ str_strip cs s @ q \<and> set p \<subseteq> set cs \<and> set q \<subseteq> set cs"
proof -
  let ?P = "\<lambda>c. c \<in> set cs"
  let ?m = "dropWhile ?P s"
  have a: "s = takeWhile ?P s @ ?m" by simp
  have b: "rev ?m = takeWhile ?P (rev ?m) @ dropWhile ?P (rev ?m)" by simp
  have "rev (rev ?m) = rev (takeWhile ?P (rev ?m) @ dropWhile ?P (rev ?m))"
    by (simp only: takeWhile_dropWhile_id)
  then have c: "?m = str_strip cs s @ rev (takeWhile ?P (rev ?m))"
    by (simp only: rev_rev_ident rev_append str_strip_def)
  have "s = takeWhile ?P s @ str_strip cs s @ rev (takeWhile ?P (rev ?m))"
    using a c by metis
  moreover have "set (takeWhile ?P s) \<subseteq> set cs" by (auto dest: set_takeWhileD)
  moreover have "set (rev (takeWhile ?P (rev ?m))) \<subseteq> set cs" by (auto dest: set_takeWhileD)
  ultimately show ?thesis by blast
qed

lemma str_strip_ends:
  assumes "str_strip cs s \<noteq> []"
  shows "hd (str_strip cs s) \<notin> set cs \<and> last (str_strip cs s) \<notin> set cs"
proof -
  let ?P = "\<lambda>c. c \<in> set cs"
  let ?m = "dropWhile ?P s"
  let ?r = "dropWhile ?P (rev ?m)"
  have ne: "?r \<noteq> []" using assms by (simp add: str_strip_def)
  then have h: "\<not> ?P (hd ?r)" by (rule hd_dropWhile)
  have l: "last (str_strip cs s) = hd ?r" using ne by (simp add: str_strip_def last_rev)
  have mne: "?m \<noteq> []"
  proof
    assume e: "?m = []"
    have "?r = []" by (simp only: e rev.simps(1) dropWhile.simps(1))
    with ne show False by blast
  qed
  then have hm: "\<not> ?P (hd ?m)" by (rule hd_dropWhile)
  have "hd (str_strip cs s) = last ?r" using ne by (simp add: str_strip_def hd_rev)
  also have "last ?r = last (takeWhile ?P (rev ?m) @ ?r)"
    using ne by (rule last_appendR[symmetric])
  also have "\<dots> = last (rev ?m)" by (simp only: takeWhile_dropWhile_id)
  also have "\<dots> = hd ?m" using mne by (simp add: last_rev)
  finally show ?thesis using h l hm by simp
qed

text \<open>The index and the two slices of \<open>Line.__init__\<close>.\<close>

lemma slice_one: "2 \<le> length xs \<Longrightarrow> list_slice xs 1 2 = [xs ! 1]"
proof -
  assume "2 \<le> length xs"
  then obtain a b r where "xs = a # b # r"
    by (metis Suc_le_length_iff numeral_2_eq_2)
  then show ?thesis by (simp add: list_slice_def slice_bound_def)
qed

lemma slice_butlast: "list_slice xs 6 (- 1) = butlast (drop 6 xs)"
proof -
  have hi: "slice_bound (length xs) (- 1) = length xs - 1"
    by (simp add: slice_bound_def)
  have lo: "slice_bound (length xs) 6 = min 6 (length xs)"
    by (simp add: slice_bound_def)
  show ?thesis
  proof (cases "6 \<le> length xs")
    case True
    then have "length xs - 1 - min 6 (length xs) = length (drop 6 xs) - 1" by simp
    then show ?thesis using True
      by (simp only: list_slice_def Let_def hi lo butlast_conv_take min_absorb1)
  next
    case False
    then show ?thesis by (simp add: list_slice_def hi lo)
  qed
qed

lemma index_ok: "k < length xs \<Longrightarrow> list_index xs (int k) = Inr (xs ! k)"
  by (simp add: list_index_def)

lemma index_fail: "length xs \<le> k \<Longrightarrow> list_index xs (int k) = Inl IndexError"
  by (simp add: list_index_def)

section \<open>Parsing a line\<close>

lemma Line_init_short: "length (str_split ln) < 6 \<Longrightarrow> Line_init ln kwargs = Inl IndexError"
  using index_fail[of "str_split ln" 5] by (simp add: Line_init_def Let_def)

lemma Line_init_long:
  assumes "6 \<le> length (str_split ln)"
  shows "Line_init ln Map.empty =
     Inr \<lparr>line = ln, timestamp = str_split ln ! 1,
          monitorcode = str_strip (str_of ''[]'') (str_split ln ! 5),
          message = str_join (str_of '' '') (butlast (drop 6 (str_split ln)))\<rparr>"
proof -
  have i: "list_index (str_split ln) 5 = Inr (str_split ln ! 5)"
    using index_ok[of 5 "str_split ln"] assms by simp
  have t: "list_slice (str_split ln) 1 2 = [str_split ln ! 1]"
    using slice_one[of "str_split ln"] assms by simp
  show ?thesis
    by (simp add: Line_init_def Let_def kwargs_get_def i t slice_butlast)
qed

lemma example_split:
  "str_split (str_of ''2024-01-01 12:00:00 X Y Z [A12] Hello World NNNN'') =
   [str_of ''2024-01-01'', str_of ''12:00:00'', str_of ''X'', str_of ''Y'', str_of ''Z'',
    str_of ''[A12]'', str_of ''Hello'', str_of ''World'', str_of ''NNNN'']"
  by (simp add: str_split_def str_of_def isspace_def)

text \<open>The line of the example, parsed by a reader whose encoding is the default.\<close>

lemma create_line_example_utf8:
  "encoding r = utf8 \<Longrightarrow>
   create_line r (Bytes example_raw) Map.empty =
     Inr \<lparr>line = str_of ''2024-01-01 12:00:00 X Y Z [A12] Hello World NNNN'',
          timestamp = str_of ''12:00:00'', monitorcode = str_of ''A12'',
          message = str_of ''Hello World''\<rparr>"
  by (simp add: create_line_def kwargs_get_def decode_line_def utf8_def
      example_raw_def push_def str_rstrip_def isspace_def Line_init_def str_split_def
      list_index_def list_slice_def slice_bound_def str_strip_def str_of_def)

text \<open>
  Claim C1, as the code has it. The bytes
  \<open>b"2024-01-01 12:00:00 X Y Z [A12] Hello World NNNN\n"\<close>, decoded with the default encoding
  and stripped, parse to timestamp \<open>"12:00:00"\<close>, monitor code \<open>"A12"\<close> and message
  \<open>"Hello World"\<close>: the slice \<open>words[6:-1]\<close> leaves the last word \<open>NNNN\<close> out.
\<close>

theorem create_line_example:
  "create_line (AbstractReader_init msgs codes Map.empty) (Bytes example_raw) Map.empty =
     Inr \<lparr>line = str_of ''2024-01-01 12:00:00 X Y Z [A12] Hello World NNNN'',
          timestamp = str_of ''12:00:00'', monitorcode = str_of ''A12'',
          message = str_of ''Hello World''\<rparr>"
proof -
  have "encoding (AbstractReader_init msgs codes Map.empty) = utf8"
    by (simp add: AbstractReader_init_def kwargs_get_def)
  then show ?thesis by (rule create_line_example_utf8)
qed

text \<open>
  Claim C1, as stated: the message of that record is not \<open>"Hello World NNNN"\<close>.
\<close>

theorem create_line_example_last_token_refuted:
  "map_sum id message
     (create_line (AbstractReader_init [] [] Map.empty) (Bytes example_raw) Map.empty) \<noteq>
   Inr (str_of ''Hello World NNNN'')"
proof -
  have "encoding (AbstractReader_init [] [] Map.empty) = utf8"
    by (simp add: AbstractReader_init_def kwargs_get_def)
  then have "map_sum id message
       (create_line (AbstractReader_init [] [] Map.empty) (Bytes example_raw) Map.empty) =
     Inr (str_of ''Hello World'')"
    by (simp add: create_line_example_utf8)
  then show ?thesis by (simp add: str_of_def)
qed

text \<open>
  Claim C2. For a line of at least seven words and no overrides, \<open>Line.__init__\<close> returns a
  record whose timestamp is word 1, whose monitor code is word 5 without its surrounding
  \<open>[\<close> and \<open>]\<close> characters, and whose message joins, with single spaces, the words from index 6
  up to but excluding the last one. The monitor code is what is left of word 5 between a prefix
  and a suffix of brackets, and has no bracket at either end.
\<close>

theorem Line_init_fields:
  assumes "7 \<le> length (str_split ln)"
  shows "Line_init ln Map.empty =
           Inr \<lparr>line = ln, timestamp = str_split ln ! 1,
                monitorcode = str_strip (str_of ''[]'') (str_split ln ! 5),
                message = str_join (str_of '' '') (butlast (drop 6 (str_split ln)))\<rparr> \<and>
         (\<exists>p q. str_split ln ! 5 = p @ str_strip (str_of ''[]'') (str_split ln ! 5) @ q \<and>
                set p \<subseteq> set (str_of ''[]'') \<and> set q \<subseteq> set (str_of ''[]'')) \<and>
         (str_strip (str_of ''[]'') (str_split ln ! 5) \<noteq> [] \<longrightarrow>
            hd (str_strip (str_of ''[]'') (str_split ln ! 5)) \<notin> set (str_of ''[]'') \<and>
            last (str_strip (str_of ''[]'') (str_split ln ! 5)) \<notin> set (str_of ''[]''))"
proof -
  have "6 \<le> length (str_split ln)" using assms by simp
  then show ?thesis
    using Line_init_long[of ln] str_strip_decomp[of "str_split ln ! 5" "str_of ''[]''"]
      str_strip_ends[of "str_of ''[]''" "str_split ln ! 5"]
    by blast
qed

theorem Line_init_fields_witness:
  "7 \<le> length (str_split (str_of ''2024-01-01 12:00:00 X Y Z [A12] Hello World NNNN'')) \<and>
   Line_init (str_of ''2024-01-01 12:00:00 X Y Z [A12] Hello World NNNN'') Map.empty =
     Inr \<lparr>line = str_of ''2024-01-01 12:00:00 X Y Z [A12] Hello World NNNN'',
          timestamp = str_of ''12:00:00'', monitorcode = str_of ''A12'',
          message = str_of ''Hello World''\<rparr>"
proof -
  have h: "7 \<le> length (str_split (str_of ''2024-01-01 12:00:00 X Y Z [A12] Hello World NNNN''))"
    by (simp add: example_split)
  have s: "str_strip (str_of ''[]'') (str_of ''[A12]'') = str_of ''A12''"
    by (simp add: str_strip_def str_of_def)
  have j: "str_of ''Hello'' @ str_of '' '' @ str_of ''World'' = str_of ''Hello World''"
    by (simp add: str_of_def)
  show ?thesis using h Line_init_fields[OF h] by (simp add: example_split s j)
qed

text \<open>
  Claim C3. For a line of fewer than six words, \<open>words[5]\<close> raises \<open>IndexError\<close> and
  \<open>Line.__init__\<close> raises it too, instead of returning a record.
\<close>

theorem Line_init_too_few_tokens: "length (str_split ln) < 6 \<Longrightarrow>
   list_index (str_split ln) 5 = Inl IndexError \<and> Line_init ln Map.empty = Inl IndexError"
  using index_fail[of "str_split ln" 5] Line_init_short[of ln Map.empty] by simp

theorem Line_init_too_few_tokens_witness:
  "length (str_split (str_of ''2024-01-01 12:00:00 X Y Z'')) < 6 \<and>
   list_index (str_split (str_of ''2024-01-01 12:00:00 X Y Z'')) 5 = Inl IndexError \<and>
   Line_init (str_of ''2024-01-01 12:00:00 X Y Z'') Map.empty = Inl IndexError"
proof -
  have h: "length (str_split (str_of ''2024-01-01 12:00:00 X Y Z'')) < 6"
    by (simp add: str_split_def str_of_def isspace_def)
  show ?thesis using h Line_init_too_few_tokens[OF h] by simp
qed

text \<open>
  Claim C10. For a line of fewer than six words, \<open>Line.__init__\<close> raises \<open>IndexError\<close> whatever
  the keyword arguments are, also when timestamp, monitorcode and message are all given: the
  default \<open>words[5].strip("[]")\<close> is computed before \<open>kwargs.get\<close> looks the key up.
\<close>

theorem Line_init_overrides_too_few_tokens: "length (str_split ln) < 6 \<Longrightarrow> Line_init ln kwargs = Inl IndexError"
  by (rule Line_init_short)

theorem Line_init_overrides_too_few_tokens_witness:
  "length (str_split (str_of ''12:00:00 [A12] Hello'')) < 6 \<and>
   Line_init (str_of ''12:00:00 [A12] Hello'')
     [''timestamp'' \<mapsto> str_of ''12:00:00'', ''monitorcode'' \<mapsto> str_of ''A12'',
      ''message'' \<mapsto> str_of ''Hello''] = Inl IndexError"
proof -
  have h: "length (str_split (str_of ''12:00:00 [A12] Hello'')) < 6"
    by (simp add: str_split_def str_of_def isspace_def)
  show ?thesis using h Line_init_overrides_too_few_tokens[OF h] by simp
qed

section \<open>The blacklist\<close>

text \<open>
  Claim C4. On a \<open>Line\<close> object, \<open>is_line_blacklisted\<close> returns true exactly when the monitor
  code is in the blacklisted monitor codes or the message is in the blacklisted messages, so
  false when neither is. The result is a value computed from the reader's two lists and the
  record; nothing is assigned.
\<close>

theorem is_line_blacklisted_iff: "is_line_blacklisted r (LineObj l) =
   Inr (monitorcode l \<in> set (blacklist_monitorcodes r) \<or> message l \<in> set (blacklist_messages r))"
  by (simp add: is_line_blacklisted_def is_monitorcode_blacklisted_def is_message_blacklisted_def
       split: bool.splits)

section \<open>Attaching and detaching\<close>

lemma world_reading_simps:
  "connection (reader world_reading) = Some 0"
  "stdout (heap world_reading 0) = Some (Pipe 1)"
  by (simp_all add: world_reading_def Connection_open_def kwargs_get_def Popen_def
      Connection_init_def os_init_def Let_def)

text \<open>
  Claim C5. When the reader holds a connection whose \<open>stdout\<close> is set, \<open>attach\<close> with another
  connection raises \<open>ConnectionError\<close> and leaves the whole state as it was: the reader keeps
  its connection, and the new connection is not opened (no process is started).
\<close>

theorem attach_while_active: "connection (reader w) = Some cur \<Longrightarrow> stdout (heap w cur) \<noteq> None \<Longrightarrow>
   attach act_fn e a w = Some (Some ConnectionError, w)"
  by (auto simp: attach_def)

theorem attach_while_active_witness:
  "connection (reader world_reading) = Some 0 \<and> stdout (heap world_reading 0) \<noteq> None \<and>
   attach MyReader_act \<lparr>rtlfm_spawn = None, multi_spawn = None, kill_call = None, stream_of = (\<lambda>p n. EOF)\<rparr> 1
     world_reading = Some (Some ConnectionError, world_reading)"
proof -
  have h1: "connection (reader world_reading) = Some 0" by (rule world_reading_simps)
  have h2: "stdout (heap world_reading 0) \<noteq> None" by (simp add: world_reading_simps)
  show ?thesis using h1 h2 attach_while_active[OF h1 h2] by simp
qed

text \<open>
  \<open>detach\<close> when \<open>kill\<close> returns: nothing happens without a connection; with one,
  \<open>COMMAND_KILL\<close> has run and the reference is cleared, so a second \<open>detach\<close> changes nothing.
\<close>

lemma detach_none: "connection (reader w) = None \<Longrightarrow> detach rk w = (None, w)"
  by (simp add: detach_def)

lemma detach_kill_returns:
  "connection (reader w) = Some a \<Longrightarrow>
   detach None w =
     (None, w\<lparr>os := (os w)\<lparr>called := called (os w) @ [COMMAND_KILL]\<rparr>,
              reader := (reader w)\<lparr>connection := None\<rparr>\<rparr>)"
  by (simp add: detach_def Connection_kill_def call_def)

lemma detach_clears: "connection (reader (snd (detach None w))) = None"
  by (cases "connection (reader w)") (simp_all add: detach_def Connection_kill_def call_def)

lemma detach_twice: "detach None (snd (detach None w)) = (None, snd (detach None w))"
  by (rule detach_none) (rule detach_clears)

text \<open>\<open>detach\<close> when \<open>kill\<close> raises: the exception goes to the caller and the state, with the
  reader's reference, is as it was.\<close>

lemma detach_kill_raises:
  "connection (reader w) = Some a \<Longrightarrow> detach (Some x) w = (Some x, w)"
  by (simp add: detach_def Connection_kill_def call_def)

text \<open>
  Claim C8 fails where \<open>kill\<close> raises. On a system where \<open>killall\<close> cannot be started, \<open>detach\<close>
  on a reader that holds connection \<open>0\<close> raises \<open>OSError\<close> and leaves the state unchanged: the
  reader's connection reference is still set, where the claim (and the docstring of \<open>detach\<close>)
  has it cleared.
\<close>

theorem detach_kill_raises_example:
  "connection (reader world_reading) = Some 0 \<and>
   detach (Some OSError) world_reading = (Some OSError, world_reading) \<and>
   connection (reader (snd (detach (Some OSError) world_reading))) = Some 0"
proof -
  have c: "connection (reader world_reading) = Some 0" by (rule world_reading_simps)
  then have d: "detach (Some OSError) world_reading = (Some OSError, world_reading)"
    by (rule detach_kill_raises)
  show ?thesis using c d by simp
qed

section \<open>The read loop\<close>

text \<open>
  The loop returns as soon as the stream ends or fails at some position, whatever \<open>act\<close> does
  before.
\<close>

lemma read_loop_returns:
  "\<forall>ln. strm (n + k) \<noteq> Data ln \<Longrightarrow> read_loop act_fn strm n w \<noteq> None"
proof (induction k arbitrary: n w)
  case 0
  then show ?case by (cases "strm n") (simp_all add: read_loop.simps)
next
  case (Suc k)
  show ?case
  proof (cases "strm n")
    case (Data ln)
    obtain r w' where a: "act_fn ln w = (r, w')" by (cases "act_fn ln w")
    show ?thesis
    proof (cases r)
      case None
      have "\<forall>ln. strm (Suc n + k) \<noteq> Data ln" using Suc.prems by simp
      then have "read_loop act_fn strm (Suc n) w' \<noteq> None" by (rule Suc.IH)
      then show ?thesis using Data a None by (subst read_loop.simps) simp
    next
      case (Some x)
      then show ?thesis using Data a by (subst read_loop.simps) simp
    qed
  next
    case EOF
    then show ?thesis by (subst read_loop.simps) simp
  next
    case (Fault x)
    then show ?thesis by (subst read_loop.simps) simp
  qed
qed

lemma try_block_returns:
  assumes "\<forall>p. \<exists>n. \<forall>ln. stream_of e p n \<noteq> Data ln"
  shows "try_block act_fn e a w \<noteq> None"
proof -
  have "read_loop act_fn (stream_of e p) 0 w' \<noteq> None" for p w'
  proof -
    obtain n where "\<forall>ln. stream_of e p n \<noteq> Data ln" using assms by blast
    then have "\<forall>ln. stream_of e p (0 + n) \<noteq> Data ln" by simp
    then show ?thesis by (rule read_loop_returns)
  qed
  then show ?thesis
    by (simp add: try_block_def Let_def split: prod.splits option.splits)
qed

lemma setup_connection_returns:
  assumes "\<forall>p. \<exists>n. \<forall>ln. stream_of e p n \<noteq> Data ln"
  shows "\<exists>r w'. setup_connection act_fn e a w = Some (r, w')"
proof -
  have "try_block act_fn e a w \<noteq> None" using assms by (rule try_block_returns)
  then show ?thesis
    by (auto simp: setup_connection_def split: option.splits prod.splits)
qed

text \<open>
  The three exits of the loop. After the lines \<open>lns\<close>: at the end of the stream the loop
  returns what running \<open>act\<close> over the lines gives, so the exception of \<open>act\<close> if it raised one
  and no exception otherwise; at a stream error it returns the exception of \<open>act\<close> if that
  came first, and the stream's error otherwise.
\<close>

lemma read_loop_feed:
  "\<forall>i<length lns. strm (n + i) = Data (lns ! i) \<Longrightarrow>
   read_loop act_fn strm n w =
     (case feed act_fn lns w of
        (Some e, w') \<Rightarrow> Some (Some e, w')
      | (None, w') \<Rightarrow> read_loop act_fn strm (n + length lns) w')"
proof (induction lns arbitrary: n w)
  case Nil
  then show ?case by simp
next
  case (Cons ln lns)
  have hd: "strm n = Data ln" using Cons.prems by auto
  have tl: "\<forall>i<length lns. strm (Suc n + i) = Data (lns ! i)"
  proof (intro allI impI)
    fix i assume "i < length lns"
    then have "strm (n + Suc i) = Data ((ln # lns) ! Suc i)" using Cons.prems by auto
    then show "strm (Suc n + i) = Data (lns ! i)" by simp
  qed
  have eq: "Suc n + length lns = n + length (ln # lns)" by simp
  obtain r w' where a: "act_fn ln w = (r, w')" by (cases "act_fn ln w")
  show ?case
  proof (cases r)
    case None
    have "read_loop act_fn strm n w = read_loop act_fn strm (Suc n) w'"
      using hd a None by (subst read_loop.simps) simp
    also have "\<dots> = (case feed act_fn lns w' of
        (Some e, w'') \<Rightarrow> Some (Some e, w'')
      | (None, w'') \<Rightarrow> read_loop act_fn strm (n + length (ln # lns)) w'')"
      using Cons.IH[OF tl, of w'] by (simp only: eq)
    finally show ?thesis using a None by simp
  next
    case (Some x)
    have "read_loop act_fn strm n w = Some (Some x, w')"
      using hd a Some by (subst read_loop.simps) simp
    then show ?thesis using a Some by simp
  qed
qed

lemma read_loop_end_of_stream:
  assumes "\<forall>i<length lns. strm (n + i) = Data (lns ! i)" and "strm (n + length lns) = EOF"
  shows "read_loop act_fn strm n w = Some (feed act_fn lns w)"
proof -
  have "read_loop act_fn strm (n + length lns) w' = Some (None, w')" for w'
    using assms(2) by (subst read_loop.simps) simp
  then show ?thesis
    using read_loop_feed[OF assms(1), of act_fn w] by (auto split: prod.splits option.splits)
qed

lemma read_loop_stream_error:
  assumes "\<forall>i<length lns. strm (n + i) = Data (lns ! i)" and "strm (n + length lns) = Fault x"
  shows "read_loop act_fn strm n w =
           Some (case feed act_fn lns w of
                   (Some e, w') \<Rightarrow> (Some e, w')
                 | (None, w') \<Rightarrow> (Some x, w'))"
proof -
  have "read_loop act_fn strm (n + length lns) w' = Some (Some x, w')" for w'
    using assms(2) by (subst read_loop.simps) simp
  then show ?thesis
    using read_loop_feed[OF assms(1), of act_fn w] by (auto split: prod.splits option.splits)
qed

text \<open>
  When \<open>kill\<close> returns, \<open>__setup_connection__\<close> is as its docstring says: whenever it returns,
  it has run \<open>detach\<close> on the state that the \<open>try\<close> block left, the reader's connection
  reference is empty, and the outcome of the \<open>try\<close> block is the outcome the caller gets.
\<close>

lemma setup_connection_kill_returns:
  assumes "kill_call e = None" and "setup_connection act_fn e a w = Some (r, w')"
  shows "connection (reader w') = None \<and>
         (\<exists>w''. try_block act_fn e a w = Some (r, w'') \<and> w' = snd (detach None w''))"
proof -
  obtain r0 w'' where t: "try_block act_fn e a w = Some (r0, w'')"
    using assms(2) by (auto simp: setup_connection_def split: option.splits)
  have n: "fst (detach None w'') = None"
    by (cases "connection (reader w'')") (simp_all add: detach_def Connection_kill_def call_def)
  have "setup_connection act_fn e a w = Some (r0, snd (detach None w''))"
    using t n assms(1) by (cases "detach None w''") (simp add: setup_connection_def)
  then have "r = r0" and "w' = snd (detach None w'')" using assms(2) by simp_all
  then show ?thesis using t detach_clears[of w''] by simp
qed

text \<open>When \<open>kill\<close> raises while the reader holds a connection, the caller gets the exception
  of \<open>kill\<close>, whatever the \<open>try\<close> block raised, and the state the \<open>try\<close> block left.\<close>

lemma setup_connection_kill_raises:
  assumes "kill_call e = Some x" and "try_block act_fn e a w = Some (r, w'')"
    and "connection (reader w'') = Some c"
  shows "setup_connection act_fn e a w = Some (Some x, w'')"
  using assms detach_kill_raises[OF assms(3), of x] by (simp add: setup_connection_def)

text \<open>
  A run of the example reader: the first line is parsed and is not blacklisted, the second has
  three words, so \<open>act\<close> raises \<open>IndexError\<close> and the loop ends with it, in the state in which
  the reader holds connection \<open>0\<close>.
\<close>

lemma MyReader_act_example:
  assumes "encoding (reader w) = utf8"
    and "blacklist_monitorcodes (reader w) = []" and "blacklist_messages (reader w) = []"
  shows "MyReader_act example_raw w = (None, w)"
  using assms create_line_example_utf8[of "reader w"]
  by (simp add: MyReader_act_def is_line_blacklisted_def is_monitorcode_blacklisted_def
      is_message_blacklisted_def)

lemma MyReader_act_short_line:
  assumes "encoding (reader w) = utf8"
  shows "MyReader_act ''FLEX: no message'' w = (Some IndexError, w)"
proof -
  have d: "decode_line (reader w) ''FLEX: no message'' True = Inr (str_of ''FLEX: no message'')"
    using assms by (simp add: decode_line_def utf8_def push_def str_rstrip_def isspace_def str_of_def)
  have "length (str_split (str_of ''FLEX: no message'')) < 6"
    by (simp add: str_split_def str_of_def isspace_def)
  then have "Line_init (str_of ''FLEX: no message'') Map.empty = Inl IndexError"
    by (rule Line_init_short)
  then show ?thesis using d by (simp add: MyReader_act_def create_line_def kwargs_get_def)
qed

lemma example_run:
  assumes "rtlfm_spawn e = None" and "multi_spawn e = None"
    and "stream_of e = stream_of example_env"
  shows "try_block MyReader_act e 0 world_init = Some (Some IndexError, world_reading)"
proof -
  have r: "encoding (reader world_reading) = utf8"
    "blacklist_monitorcodes (reader world_reading) = []"
    "blacklist_messages (reader world_reading) = []"
    by (simp_all add: world_reading_def Connection_open_def Popen_def kwargs_get_def
        AbstractReader_init_def Let_def)
  have t: "try_block MyReader_act e 0 world_init =
           read_loop MyReader_act (stream_of example_env (Pipe 1)) 0 world_reading"
    using assms
    by (simp add: try_block_def world_reading_def world_init_def Connection_open_def
        Popen_def kwargs_get_def Connection_init_def os_init_def AbstractReader_init_def Let_def)
  have p: "\<forall>i<length [example_raw, ''FLEX: no message''].
             stream_of example_env (Pipe 1) (0 + i) = Data ([example_raw, ''FLEX: no message''] ! i)"
    by (simp add: example_env_def less_Suc_eq numeral_2_eq_2)
  have f: "feed MyReader_act [example_raw, ''FLEX: no message''] world_reading =
             (Some IndexError, world_reading)"
    using MyReader_act_example[OF r] MyReader_act_short_line[OF r(1)] by simp
  have "read_loop MyReader_act (stream_of example_env (Pipe 1)) 0 world_reading =
          Some (Some IndexError, world_reading)"
    using read_loop_feed[OF p, of MyReader_act world_reading] f by simp
  then show ?thesis using t by simp
qed

text \<open>
  Claim C6 fails where \<open>kill\<close> raises. On a system where \<open>killall\<close> cannot be started, the
  \<open>try\<close> block of the example run ends with the \<open>IndexError\<close> of \<open>act\<close>; \<open>finally\<close> runs
  \<open>detach\<close>, which raises \<open>OSError\<close> before it clears the reference. The caller gets
  \<open>OSError\<close>, not the \<open>IndexError\<close>, and the reader still holds connection \<open>0\<close>, where the
  claim (and the docstring of \<open>__setup_connection__\<close>) has the connection always detached.
\<close>

theorem setup_connection_no_killall:
  "try_block MyReader_act no_killall_env 0 world_init = Some (Some IndexError, world_reading) \<and>
   setup_connection MyReader_act no_killall_env 0 world_init =
     Some (Some OSError, world_reading) \<and>
   connection (reader world_reading) = Some 0"
proof -
  have t: "try_block MyReader_act no_killall_env 0 world_init =
             Some (Some IndexError, world_reading)"
    by (rule example_run) (simp_all add: no_killall_env_def example_env_def)
  have k: "kill_call no_killall_env = Some OSError" by (simp add: no_killall_env_def)
  have c: "connection (reader world_reading) = Some 0" by (rule world_reading_simps)
  have "setup_connection MyReader_act no_killall_env 0 world_init =
          Some (Some OSError, world_reading)"
    using k t c by (rule setup_connection_kill_raises)
  then show ?thesis using t c by simp
qed

section \<open>The stream handle of a connection\<close>

lemma Connection_open_stdout:
  "stdout (fst (snd (Connection_open rk r1 r2 kwargs c s))) \<noteq> None \<longleftrightarrow>
   stdout c \<noteq> None \<or>
   ((kwargs_get kwargs ''kill'' False \<longrightarrow> rk = None) \<and> r1 = None \<and> r2 = None)"
  by (cases rk; cases r1; cases r2; cases "kwargs_get kwargs ''kill'' False")
     (simp_all add: Connection_open_def Connection_kill_def call_def Popen_def Let_def)

lemma conn_step_stdout:
  "stdout (fst (conn_step op (c, s))) \<noteq> None \<longleftrightarrow>
   stdout c \<noteq> None \<or>
   (\<exists>rk kwargs. op = Open rk None None kwargs \<and> (kwargs_get kwargs ''kill'' False \<longrightarrow> rk = None))"
proof (cases op)
  case (Open rk r1 r2 kwargs)
  then show ?thesis using Connection_open_stdout[of rk r1 r2 kwargs c s] by auto
next
  case (Kill rk)
  then show ?thesis by (cases rk) (simp_all add: Connection_kill_def call_def)
qed

lemma conn_fold_stdout:
  "stdout (fst (foldl (\<lambda>st op. conn_step op st) (c, s) ops)) \<noteq> None \<longleftrightarrow>
   stdout c \<noteq> None \<or>
   (\<exists>rk kwargs. Open rk None None kwargs \<in> set ops \<and>
                (kwargs_get kwargs ''kill'' False \<longrightarrow> rk = None))"
proof (induction ops arbitrary: c s)
  case Nil
  then show ?case by simp
next
  case (Cons op ops)
  obtain c' s' where st: "conn_step op (c, s) = (c', s')" by (cases "conn_step op (c, s)")
  have "stdout c' \<noteq> None \<longleftrightarrow> stdout c \<noteq> None \<or>
     (\<exists>rk kwargs. op = Open rk None None kwargs \<and> (kwargs_get kwargs ''kill'' False \<longrightarrow> rk = None))"
    using conn_step_stdout[of op c s] st by simp
  then show ?case using Cons.IH[of c' s'] st by auto
qed

text \<open>
  Claim C9, as the code has it. After any history of \<open>open\<close> and \<open>kill\<close> calls on a new
  \<open>Connection\<close>, \<open>stdout\<close> is set exactly when some \<open>open\<close> of the history started both
  processes (so one whose \<open>kill\<close>, if asked for, returned). \<open>kill\<close> changes no field of the
  object, whether it returns or raises, so the handle stays set after it. \<open>attach\<close> looks at
  the connection the reader holds, not at the one it is given: a reader that holds none sets
  up any connection, whatever its handle.
\<close>

theorem Connection_stdout_history:
  "(stdout (fst (conn_run ops s)) \<noteq> None \<longleftrightarrow>
      (\<exists>rk kwargs. Open rk None None kwargs \<in> set ops \<and>
                   (kwargs_get kwargs ''kill'' False \<longrightarrow> rk = None))) \<and>
   fst (conn_run (ops @ [Kill rk']) s) = fst (conn_run ops s) \<and>
   (connection (reader w) = None \<longrightarrow> attach act_fn e a w = setup_connection act_fn e a w)"
proof (intro conjI impI)
  show "stdout (fst (conn_run ops s)) \<noteq> None \<longleftrightarrow>
      (\<exists>rk kwargs. Open rk None None kwargs \<in> set ops \<and>
                   (kwargs_get kwargs ''kill'' False \<longrightarrow> rk = None))"
    using conn_fold_stdout[of Connection_init s ops]
    by (simp add: conn_run_def Connection_init_def)
  show "fst (conn_run (ops @ [Kill rk']) s) = fst (conn_run ops s)"
    by (cases "foldl (\<lambda>st op. conn_step op st) (Connection_init, s) ops"; cases rk')
       (simp_all add: conn_run_def Connection_kill_def call_def)
  show "attach act_fn e a w = setup_connection act_fn e a w" if "connection (reader w) = None"
    using that by (simp add: attach_def)
qed

theorem Connection_stdout_history_witness:
  "stdout (fst (conn_run [Open None None None Map.empty] os_init)) \<noteq> None \<and>
   fst (conn_run ([Open None None None Map.empty] @ [Kill None]) os_init) =
     fst (conn_run [Open None None None Map.empty] os_init) \<and>
   connection (reader (snd (detach None world_reading))) = None \<and>
   stdout (heap (snd (detach None world_reading)) 0) \<noteq> None \<and>
   attach MyReader_act example_env 0 (snd (detach None world_reading)) =
     setup_connection MyReader_act example_env 0 (snd (detach None world_reading))"
proof -
  have m: "\<exists>rk kwargs. Open rk None None kwargs \<in> set [Open None None None Map.empty] \<and>
             (kwargs_get kwargs ''kill'' False \<longrightarrow> rk = None)"
    by (intro exI[of _ None] exI[of _ Map.empty]) simp
  have n: "connection (reader (snd (detach None world_reading))) = None" by (rule detach_clears)
  have h: "stdout (heap (snd (detach None world_reading)) 0) \<noteq> None"
    by (simp add: detach_def world_reading_simps Connection_kill_def call_def)
  show ?thesis
    using m n h
      Connection_stdout_history[of "[Open None None None Map.empty]" os_init None
        "snd (detach None world_reading)" MyReader_act example_env 0]
    by blast
qed

text \<open>
  Claim C9, as stated: after an \<open>open\<close> that started both processes and a \<open>kill\<close>, the handle
  is still set.
\<close>

theorem Connection_stdout_after_kill_refuted:
  "stdout (fst (conn_run [Open None None None Map.empty, Kill None] os_init)) \<noteq> None"
  by (simp add: conn_run_def Connection_open_def Connection_kill_def Popen_def kwargs_get_def
      Connection_init_def os_init_def call_def Let_def)

section \<open>Decoding\<close>

text \<open>
  The default codec decodes what it encodes.
\<close>

lemma cont_mod: "(128 + n mod 64) mod 64 = (n::nat) mod 64"
proof -
  have "(128 + n mod 64) mod 64 = (2 * 64 + n mod 64) mod 64" by simp
  also have "\<dots> = (n mod 64) mod 64" by (rule mod_mult_self3)
  finally show ?thesis by simp
qed

lemma of_char_byte: "n < 256 \<Longrightarrow> of_char (char_of n) = (n::nat)"
  by simp

lemma continuation_props:
  "is_cont (continuation n) \<and> cont_bits (continuation n) = n mod 64"
proof -
  have lt: "n mod 64 < 64" by simp
  then have "128 + n mod 64 < 256" by linarith
  then have v: "of_char (continuation n) = (128 + n mod 64 :: nat)"
    unfolding continuation_def by (simp only: of_char_byte)
  show ?thesis using lt by (simp add: is_cont_def cont_bits_def v cont_mod)
qed

lemma decode_cp1:
  "c < 0x80 \<Longrightarrow> utf8_decode (char_of c # rest) = push c (utf8_decode rest)"
  by simp

lemma decode_cp2:
  assumes "0x80 \<le> c" and "c < 0x800"
  shows "utf8_decode (char_of (0xC0 + c div 64) # continuation c # rest) =
         push c (utf8_decode rest)"
proof -
  have h: "2 \<le> c div 64 \<and> c div 64 < 32" using assms by linarith
  then have "0xC0 + c div 64 < 256" by linarith
  then have v: "of_char (char_of (0xC0 + c div 64)) = (0xC0 + c div 64 :: nat)"
    by (simp only: of_char_byte)
  have r: "c div 64 * 64 + c mod 64 = c" by simp
  show ?thesis using h r
    by (simp add: v continuation_props del: of_char_of)
qed

lemma decode_lead3:
  assumes "of_char b0 = (0xE0 + x :: nat)" and "x < 16" and "is_cont b1" and "is_cont b2"
    and "v = x * 4096 + cont_bits b1 * 64 + cont_bits b2"
    and "0x800 \<le> v" and "\<not> (0xD800 \<le> v \<and> v \<le> 0xDFFF)"
  shows "utf8_decode (b0 # b1 # b2 # rest) = push v (utf8_decode rest)"
  using assms by simp

lemma decode_lead4:
  assumes "of_char b0 = (0xF0 + x :: nat)" and "x < 5"
    and "is_cont b1" and "is_cont b2" and "is_cont b3"
    and "v = x * 262144 + cont_bits b1 * 4096 + cont_bits b2 * 64 + cont_bits b3"
    and "0x10000 \<le> v" and "v < 0x110000"
  shows "utf8_decode (b0 # b1 # b2 # b3 # rest) = push v (utf8_decode rest)"
  using assms by simp

lemma decode_cp3:
  assumes "0x800 \<le> c" and "c < 0x10000" and "\<not> (0xD800 \<le> c \<and> c \<le> 0xDFFF)"
  shows "utf8_decode (char_of (0xE0 + c div 4096) # continuation (c div 64) #
                      continuation c # rest) = push c (utf8_decode rest)"
proof -
  define x where "x = c div 4096"
  define y where "y = c div 64 mod 64"
  define z where "z = c mod 64"
  have x: "x < 16" unfolding x_def using assms(2) by linarith
  then have "0xE0 + x < 256" by linarith
  then have v: "of_char (char_of (0xE0 + x)) = (0xE0 + x :: nat)" by (simp only: of_char_byte)
  have "c div 4096 = c div 64 div 64" by (simp add: div_mult2_eq[symmetric])
  then have e1: "c div 64 = x * 64 + y" unfolding x_def y_def by simp
  have e2: "c = c div 64 * 64 + z" unfolding z_def by simp
  have r: "c = x * 4096 + y * 64 + z" using e1 e2 by linarith
  have "utf8_decode (char_of (0xE0 + x) # continuation (c div 64) # continuation c # rest) =
        push c (utf8_decode rest)"
  proof (rule decode_lead3[OF v x])
    show "is_cont (continuation (c div 64))" by (simp add: continuation_props)
    show "is_cont (continuation c)" by (simp add: continuation_props)
    show "c = x * 4096 + cont_bits (continuation (c div 64)) * 64 + cont_bits (continuation c)"
      using r by (simp only: continuation_props y_def z_def)
    show "0x800 \<le> c" by (rule assms(1))
    show "\<not> (0xD800 \<le> c \<and> c \<le> 0xDFFF)" by (rule assms(3))
  qed
  then show ?thesis by (simp only: x_def)
qed

lemma decode_cp4:
  assumes "0x10000 \<le> c" and "c < 0x110000"
  shows "utf8_decode (char_of (0xF0 + c div 262144) # continuation (c div 4096) #
                      continuation (c div 64) # continuation c # rest) =
         push c (utf8_decode rest)"
proof -
  define x where "x = c div 262144"
  define u where "u = c div 4096 mod 64"
  define y where "y = c div 64 mod 64"
  define z where "z = c mod 64"
  have x: "x < 5" unfolding x_def using assms(2) by linarith
  then have "0xF0 + x < 256" by linarith
  then have v: "of_char (char_of (0xF0 + x)) = (0xF0 + x :: nat)" by (simp only: of_char_byte)
  have "c div 262144 = c div 4096 div 64" by (simp add: div_mult2_eq[symmetric])
  then have e0: "c div 4096 = x * 64 + u" unfolding x_def u_def by simp
  have "c div 4096 = c div 64 div 64" by (simp add: div_mult2_eq[symmetric])
  then have e1: "c div 64 = c div 4096 * 64 + y" unfolding y_def by simp
  have e2: "c = c div 64 * 64 + z" unfolding z_def by simp
  have r: "c = x * 262144 + u * 4096 + y * 64 + z" using e0 e1 e2 by linarith
  have "utf8_decode (char_of (0xF0 + x) # continuation (c div 4096) #
                     continuation (c div 64) # continuation c # rest) =
        push c (utf8_decode rest)"
  proof (rule decode_lead4[OF v x])
    show "is_cont (continuation (c div 4096))" by (simp add: continuation_props)
    show "is_cont (continuation (c div 64))" by (simp add: continuation_props)
    show "is_cont (continuation c)" by (simp add: continuation_props)
    show "c = x * 262144 + cont_bits (continuation (c div 4096)) * 4096 +
              cont_bits (continuation (c div 64)) * 64 + cont_bits (continuation c)"
      using r by (simp only: continuation_props u_def y_def z_def)
    show "0x10000 \<le> c" by (rule assms(1))
    show "c < 0x110000" by (rule assms(2))
  qed
  then show ?thesis by (simp only: x_def)
qed

lemma utf8_decode_encode_cp:
  assumes "utf8_encode_cp c = Inr bs"
  shows "utf8_decode (bs @ rest) = push c (utf8_decode rest)"
proof -
  consider (one) "c < 0x80"
    | (two) "0x80 \<le> c" "c < 0x800"
    | (three) "0x800 \<le> c" "c < 0x10000"
    | (four) "0x10000 \<le> c" "c < 0x110000"
    | (none) "0x110000 \<le> c"
    by linarith
  then show ?thesis
  proof cases
    case one
    then have "bs = [char_of c]" using assms by (simp add: utf8_encode_cp_def)
    then show ?thesis using decode_cp1[OF one] by simp
  next
    case two
    then have "bs = [char_of (0xC0 + c div 64), continuation c]"
      using assms by (simp add: utf8_encode_cp_def)
    then show ?thesis using decode_cp2[OF two] by simp
  next
    case three
    then have ns: "\<not> (0xD800 \<le> c \<and> c \<le> 0xDFFF)"
      using assms by (auto simp: utf8_encode_cp_def split: if_splits)
    have "bs = [char_of (0xE0 + c div 4096), continuation (c div 64), continuation c]"
      using assms three ns by (auto simp: utf8_encode_cp_def split: if_splits)
    then show ?thesis using decode_cp3[OF three ns] by simp
  next
    case four
    then have "bs = [char_of (0xF0 + c div 262144), continuation (c div 4096),
                     continuation (c div 64), continuation c]"
      using assms by (simp add: utf8_encode_cp_def)
    then show ?thesis using decode_cp4[OF four] by simp
  next
    case none
    then show ?thesis using assms by (simp add: utf8_encode_cp_def)
  qed
qed

lemma utf8_round_trip: "utf8_encode s = Inr b \<Longrightarrow> utf8_decode b = Inr s"
proof (induction s arbitrary: b)
  case Nil
  then show ?case by simp
next
  case (Cons c cs)
  from Cons.prems obtain bs r where
    h: "utf8_encode_cp c = Inr bs" and t: "utf8_encode cs = Inr r" and b: "b = bs @ r"
    by (auto split: sum.splits)
  have "utf8_decode r = Inr cs" using t by (rule Cons.IH)
  then show ?case using utf8_decode_encode_cp[OF h, of r] b by (simp add: push_def)
qed

lemma utf8_encode_ascii:
  "\<forall>c\<in>set cs. (of_char c :: nat) < 0x80 \<Longrightarrow> utf8_encode (str_of cs) = Inr cs"
  by (induction cs) (simp_all add: str_of_def utf8_encode_cp_def)

lemma rstrip_line:
  assumes "t = [] \<or> \<not> isspace (last t)"
  shows "str_rstrip (t @ [0x0A]) = t"
proof -
  have nl: "isspace 0x0A" by (simp add: isspace_def)
  show ?thesis
  proof (cases "t = []")
    case True
    then show ?thesis using nl by (simp add: str_rstrip_def)
  next
    case False
    then have "\<not> isspace (last t)" using assms by simp
    then have "\<not> isspace (hd (rev t))" using False by (simp add: hd_rev)
    moreover have "rev t \<noteq> []" using False by simp
    ultimately have "dropWhile isspace (rev t) = rev t" by (cases "rev t") simp_all
    then show ?thesis using nl by (simp add: str_rstrip_def)
  qed
qed

text \<open>
  Claim C7, as the code has it. For a reader with the default encoding and a text that the
  encoding encodes, decoding the encoded bytes with \<open>decode_line\<close> returns, with
  \<open>strip=False\<close>, the text itself, trailing newline included, and with \<open>strip=True\<close> the text
  without all of its trailing whitespace (\<open>rstrip\<close>). That is the text minus its trailing
  newline when the text ends with a newline and what precedes the newline does not end with
  whitespace.
\<close>

theorem decode_line_round_trip:
  assumes "encoding r = utf8" and "encode (encoding r) s = Inr b"
  shows "decode_line r b False = Inr s \<and>
         decode_line r b True = Inr (str_rstrip s) \<and>
         (\<forall>t. s = t @ [0x0A] \<and> (t = [] \<or> \<not> isspace (last t)) \<longrightarrow>
              decode_line r b True = Inr (without_trailing_newline s))"
proof -
  have "utf8_encode s = Inr b" using assms by (simp add: utf8_def)
  then have "utf8_decode b = Inr s" by (rule utf8_round_trip)
  then have d: "decode (encoding r) b = Inr s" using assms(1) by (simp add: utf8_def)
  have a: "decode_line r b False = Inr s" using d by (simp add: decode_line_def)
  have c: "decode_line r b True = Inr (str_rstrip s)" using d by (simp add: decode_line_def)
  have "decode_line r b True = Inr (without_trailing_newline s)"
    if "s = t @ [0x0A]" and "t = [] \<or> \<not> isspace (last t)" for t
    using c that rstrip_line[OF that(2)] by (simp add: without_trailing_newline_def)
  then show ?thesis using a c by blast
qed

theorem decode_line_round_trip_witness:
  "encoding (AbstractReader_init [] [] Map.empty) = utf8 \<and>
   encode (encoding (AbstractReader_init [] [] Map.empty)) (str_of ''Hello World'' @ [0x0A]) =
     Inr (''Hello World'' @ [CHR 0x0A]) \<and>
   decode_line (AbstractReader_init [] [] Map.empty) (''Hello World'' @ [CHR 0x0A]) False =
     Inr (str_of ''Hello World'' @ [0x0A]) \<and>
   decode_line (AbstractReader_init [] [] Map.empty) (''Hello World'' @ [CHR 0x0A]) True =
     Inr (str_of ''Hello World'')"
proof -
  let ?r = "AbstractReader_init [] [] Map.empty"
  have c: "encoding ?r = utf8" by (simp add: AbstractReader_init_def kwargs_get_def)
  have "utf8_encode (str_of (''Hello World'' @ [CHR 0x0A])) = Inr (''Hello World'' @ [CHR 0x0A])"
    by (rule utf8_encode_ascii) simp
  then have e: "encode (encoding ?r) (str_of ''Hello World'' @ [0x0A]) =
             Inr (''Hello World'' @ [CHR 0x0A])"
    by (simp add: AbstractReader_init_def kwargs_get_def utf8_def str_of_def)
  have n: "\<not> isspace (last (str_of ''Hello World''))" by (simp add: str_of_def isspace_def)
  have w: "without_trailing_newline (str_of ''Hello World'' @ [0x0A]) = str_of ''Hello World''"
    by (simp add: without_trailing_newline_def)
  show ?thesis using c e n w decode_line_round_trip[OF c e] by auto
qed

text \<open>
  Claim C7, as stated: the line \<open>"Hello \n"\<close>, encoded with the default encoding and decoded
  with \<open>strip=True\<close>, does not come back as the text minus its trailing newline; the space
  before the newline is removed too.
\<close>

theorem decode_line_strips_more_than_newline:
  "encode (encoding (AbstractReader_init [] [] Map.empty)) (str_of ''Hello '' @ [0x0A]) =
     Inr (''Hello '' @ [CHR 0x0A]) \<and>
   decode_line (AbstractReader_init [] [] Map.empty) (''Hello '' @ [CHR 0x0A]) True \<noteq>
     Inr (without_trailing_newline (str_of ''Hello '' @ [0x0A]))"
proof -
  have "utf8_encode (str_of (''Hello '' @ [CHR 0x0A])) = Inr (''Hello '' @ [CHR 0x0A])"
    by (rule utf8_encode_ascii) simp
  then have "encode (encoding (AbstractReader_init [] [] Map.empty)) (str_of ''Hello '' @ [0x0A]) =
     Inr (''Hello '' @ [CHR 0x0A])"
    by (simp add: AbstractReader_init_def kwargs_get_def utf8_def str_of_def)
  moreover have
    "decode_line (AbstractReader_init [] [] Map.empty) (''Hello '' @ [CHR 0x0A]) True \<noteq>
       Inr (without_trailing_newline (str_of ''Hello '' @ [0x0A]))"
    by (simp add: AbstractReader_init_def kwargs_get_def utf8_def str_of_def
        decode_line_def push_def str_rstrip_def isspace_def without_trailing_newline_def)
  ultimately show ?thesis by (rule conjI)
qed

end
